theory Spec2Isabelle
  imports Main "HOL-Library.Word" "HOL-Library.Sublist"
begin

section \<open>Data model of the point cloud reader and publisher node\<close>

text \<open>
  The node of \<^verbatim>\<open>point_cloud_reader_publisher_node.cpp\<close> loads every \<^verbatim>\<open>*.bin\<close> file of a
  KITTI drive into a cache of \<^verbatim>\<open>PointCloud2\<close> messages and then replays the cache from a
  wall timer that re-arms itself in its own callback.

  Machine integers are words: \<^verbatim>\<open>std::int64_t\<close> timestamps and
  \<^verbatim>\<open>std::chrono::nanoseconds\<close> are \<open>64 word\<close> (read with \<open>sint\<close>, subtraction wraps as
  two's complement does), the cursor \<^verbatim>\<open>std::uint32_t current_index_\<close> is \<open>32 word\<close>.
  Sizes of vectors (\<^verbatim>\<open>std::size_t\<close>) are \<open>nat\<close>. The members of the class end in an
  underscore in the source (\<^verbatim>\<open>timer_\<close>); the underscore is dropped here.
\<close>

type_synonym byte = "8 word"
type_synonym int64 = "64 word"
type_synonym uint32 = "32 word"

text \<open>
  The code never computes with a \<^verbatim>\<open>float\<close>: it only copies floats from the file buffer
  into points and from points into the message. A float is therefore its object
  representation, the four bytes it occupies, in memory order.
\<close>

type_synonym float32 = "byte \<times> byte \<times> byte \<times> byte"

text \<open>
  Modelled from the spec: \<^verbatim>\<open>types.hpp\<close> with \<^verbatim>\<open>common::PointCartesian\<close> is not part of
  the sources at hand. The decoder's records are "(x, y, z, intensity) float32 records", so
  the struct has these four \<^verbatim>\<open>float\<close> members in this order, 16 bytes without padding.
\<close>

record PointCartesian =
  x_m :: float32
  y_m :: float32
  z_m :: float32
  intensity :: float32

definition sizeof_float :: nat where
  "sizeof_float = 4"

definition sizeof_PointCartesian :: nat where
  "sizeof_PointCartesian = 16"

fun float_bytes :: "float32 \<Rightarrow> byte list" where
  "float_bytes (b0, b1, b2, b3) = [b0, b1, b2, b3]"

definition point_bytes :: "PointCartesian \<Rightarrow> byte list" where
  "point_bytes p = float_bytes (x_m p) @ float_bytes (y_m p) @ float_bytes (z_m p) @ float_bytes (intensity p)"

datatype PointFieldTypes = INT8 | UINT8 | INT16 | UINT16 | INT32 | UINT32 | FLOAT32 | FLOAT64

fun PointFieldTypes_value :: "PointFieldTypes \<Rightarrow> byte" where
  "PointFieldTypes_value INT8 = 1"
| "PointFieldTypes_value UINT8 = 2"
| "PointFieldTypes_value INT16 = 3"
| "PointFieldTypes_value UINT16 = 4"
| "PointFieldTypes_value INT32 = 5"
| "PointFieldTypes_value UINT32 = 6"
| "PointFieldTypes_value FLOAT32 = 7"
| "PointFieldTypes_value FLOAT64 = 8"

record PointField =
  name :: string
  offset :: uint32
  datatype_id :: byte
  count :: uint32

text \<open>
  The message of \<^verbatim>\<open>sensor_msgs\<close>. The constructor splits the capture timestamp into
  \<^verbatim>\<open>header.stamp.sec\<close> and \<^verbatim>\<open>header.stamp.nanosec\<close> in \<^verbatim>\<open>double\<close> arithmetic; that
  split is not modelled, the field \<open>stamp\<close> keeps the timestamp both are computed from.
\<close>

record PointCloud2 =
  frame_id :: string
  stamp :: int64
  height :: uint32
  width :: uint32
  point_fields :: "PointField list"
  is_bigendian :: bool
  point_step :: uint32
  row_step :: uint32
  data :: "byte list"
  is_dense :: bool

text \<open>
  What the node does to the outside, in the order it does it: a file it tries to open, a
  line on \<^verbatim>\<open>std::cerr\<close>, a line on \<^verbatim>\<open>std::cout\<close>.
\<close>

datatype event = OpenFile string | Cerr string | Cout string

text \<open>
  Failures. \<open>RuntimeError\<close> is a thrown \<^verbatim>\<open>std::runtime_error\<close> with its message.
  \<open>OutOfRange\<close> stands for \<^verbatim>\<open>operator[]\<close> of a \<^verbatim>\<open>std::vector\<close> at an index that is not
  below its size, where C++ leaves the behaviour undefined.
\<close>

datatype error = RuntimeError string | OutOfRange

text \<open>A file system: the content of a file that can be opened, \<open>None\<close> for one that cannot.\<close>

type_synonym filesystem = "string \<Rightarrow> byte list option"

section \<open>The frame decoder \<^verbatim>\<open>loadPointCloudDataFromBin\<close>\<close>

definition MAX_POINTS :: nat where
  "MAX_POINTS = 200000"

definition buffer_size :: nat where
  "buffer_size = 1000000"

text \<open>
  \<^verbatim>\<open>input.read(buffer, buffer_size * sizeof(float))\<close> stores as many bytes as the file has,
  at most the size of the buffer; \<^verbatim>\<open>gcount()\<close> is their number.
\<close>

definition gcount :: "byte list \<Rightarrow> nat" where
  "gcount content = min (length content) (buffer_size * sizeof_float)"

text \<open>
  \<^verbatim>\<open>std::vector<float> data_buffer(buffer_size)\<close> holds \<open>buffer_size\<close> zeros; the read
  overwrites its first \<open>gcount\<close> bytes. \<open>data_buffer content i\<close> is the float at index
  \<open>i < buffer_size\<close> afterwards.
\<close>

definition buffer_byte :: "byte list \<Rightarrow> nat \<Rightarrow> byte" where
  "buffer_byte content j = (if j < gcount content then content ! j else 0)"

definition data_buffer :: "byte list \<Rightarrow> nat \<Rightarrow> float32" where
  "data_buffer content i =
     (buffer_byte content (sizeof_float * i), buffer_byte content (sizeof_float * i + 1),
      buffer_byte content (sizeof_float * i + 2), buffer_byte content (sizeof_float * i + 3))"

text \<open>The loop \<^verbatim>\<open>for (std::size_t i = 0; i < number_of_floats; i += 4)\<close>.\<close>

function copy_points ::
  "(nat \<Rightarrow> float32) \<Rightarrow> nat \<Rightarrow> nat \<Rightarrow> PointCartesian list \<Rightarrow> PointCartesian list" where
  "copy_points buf number_of_floats i point_cloud =
     (if i < number_of_floats
      then copy_points buf number_of_floats (i + 4)
             (point_cloud @
               [\<lparr>x_m = buf i, y_m = buf (i + 1), z_m = buf (i + 2), intensity = buf (i + 3)\<rparr>])
      else point_cloud)"
  by pat_completeness auto
termination
  by (relation "measure (\<lambda>(buf, n, i, pc). n - i)") auto

declare copy_points.simps [simp del]

definition number_of_floats :: "byte list \<Rightarrow> nat" where
  "number_of_floats content = gcount content div sizeof_float"

definition decode :: "byte list \<Rightarrow> PointCartesian list" where
  "decode content = copy_points (data_buffer content) (number_of_floats content) 0 []"

definition loadPointCloudDataFromBin :: "filesystem \<Rightarrow> string \<Rightarrow> event list \<times> PointCartesian list" where
  "loadPointCloudDataFromBin fs filename =
     (case fs filename of
        None \<Rightarrow> ([OpenFile filename, Cerr (''Could not read file: '' @ filename)], [])
      | Some content \<Rightarrow> ([OpenFile filename], decode content))"

section \<open>The node: constructor and timer callback\<close>

text \<open>The message the constructor builds from one decoded file and its timestamp.\<close>

definition point_field :: "string \<Rightarrow> nat \<Rightarrow> PointFieldTypes \<Rightarrow> nat \<Rightarrow> PointField" where
  "point_field n off ty c =
     \<lparr>name = n, offset = of_nat off, datatype_id = PointFieldTypes_value ty, count = of_nat c\<rparr>"

definition point_cloud_message :: "int64 \<Rightarrow> PointCartesian list \<Rightarrow> PointCloud2" where
  "point_cloud_message t point_cloud_data =
     \<lparr>frame_id = ''pointcloud'',
      stamp = t,
      height = 1,
      width = of_nat (length point_cloud_data),
      point_fields =
        [point_field ''x'' 0 FLOAT32 1, point_field ''y'' 4 FLOAT32 1,
         point_field ''z'' 8 FLOAT32 1, point_field ''intensity'' 12 FLOAT32 1],
      is_bigendian = False,
      point_step = of_nat sizeof_PointCartesian,
      row_step = of_nat (sizeof_PointCartesian * length point_cloud_data),
      data = concat (map point_bytes point_cloud_data),
      is_dense = True\<rparr>"

text \<open>
  The state of the node. \<open>timer\<close> is the interval of the wall timer that is pending
  (\<open>None\<close> before the first one is created), \<open>published\<close> the messages handed to
  \<^verbatim>\<open>cloud_publisher_->publish\<close> so far, oldest first.
\<close>

record node =
  timestamp_cache :: "int64 list"
  point_cloud_cache :: "PointCloud2 list"
  current_index :: uint32
  timer :: "int64 option"
  published :: "PointCloud2 list"

text \<open>
  What the constructor finds on disk. \<^verbatim>\<open>readTimestamps\<close> and \<^verbatim>\<open>readFilenames\<close> are not
  part of the sources at hand: \<open>timestamps\<close> and \<open>data_files\<close> are what they return.
\<close>

record dataset =
  data_path_exists :: bool
  timestamps_file_exists :: bool
  binary_data_path_exists :: bool
  timestamps :: "int64 list"
  data_files :: "string list"
  files :: filesystem

text \<open>
  The loop of the constructor over \<open>i < timestamp_cache_.size()\<close>. It runs after the two
  sizes were found equal, so \<open>data_files[i]\<close> and \<open>timestamp_cache_[i]\<close> are in range.
\<close>

function load_loop ::
  "filesystem \<Rightarrow> int64 list \<Rightarrow> string list \<Rightarrow> nat \<Rightarrow> event list \<times> PointCloud2 list
     \<Rightarrow> event list \<times> PointCloud2 list" where
  "load_loop fs ts fnames i (log, cache) =
     (if i < length ts
      then (case loadPointCloudDataFromBin fs (fnames ! i) of
              (ev, point_cloud_data) \<Rightarrow>
                if point_cloud_data = []
                then load_loop fs ts fnames (i + 1)
                       (log @ ev @ [Cout ''Empty binary file, skipping.''], cache)
                else load_loop fs ts fnames (i + 1)
                       (log @ ev, cache @ [point_cloud_message (ts ! i) point_cloud_data]))
      else (log, cache))"
  by pat_completeness auto
termination
  by (relation "measure (\<lambda>(fs, ts, fnames, i, acc). length ts - i)") auto

declare load_loop.simps [simp del]

definition boundary_sleep :: int64 where
  "boundary_sleep = 100000000"

text \<open>
  \<^verbatim>\<open>updateTimerAndPublish(interval)\<close> replaces the timer by a new wall timer with this
  interval; what the timer runs when it fires is \<open>timer_callback\<close> below.
\<close>

definition updateTimerAndPublish :: "int64 \<Rightarrow> node \<Rightarrow> node" where
  "updateTimerAndPublish interval n = n\<lparr>timer := Some interval\<rparr>"

text \<open>
  The constructor, in two parts. \<open>build_cache\<close> is the constructor up to the end of its
  loop: the checks of the paths, the check of the two sizes, the loop. \<open>construct\<close> is the
  whole constructor: it goes on to set the cursor and to create the first timer, whose
  interval is \<^verbatim>\<open>timestamp_cache_[1] - timestamp_cache_[0]\<close>.
\<close>

definition build_cache :: "dataset \<Rightarrow> event list \<times> (error + PointCloud2 list)" where
  "build_cache d =
     (if \<not> data_path_exists d
      then ([], Inl (RuntimeError ''Specified data path does not exist.''))
      else if \<not> timestamps_file_exists d
      then ([], Inl (RuntimeError ''Timestamp data file timestamps_start.txt was not found.''))
      else if \<not> binary_data_path_exists d
      then ([], Inl (RuntimeError ''Data path containing *.bin files was not found..''))
      else if length (data_files d) \<noteq> length (timestamps d)
      then ([], Inl (RuntimeError
              ''The number of timestamps does not equal the number of data files''))
      else (case load_loop (files d) (timestamps d) (data_files d) 0 ([], []) of
              (log, cache) \<Rightarrow> (log, Inr cache)))"

definition construct :: "dataset \<Rightarrow> event list \<times> (error + node)" where
  "construct d =
     (case build_cache d of
        (log, Inl e) \<Rightarrow> (log, Inl e)
      | (log, Inr cache) \<Rightarrow>
          if 1 < length (timestamps d)
          then (log, Inr (updateTimerAndPublish (timestamps d ! 1 - timestamps d ! 0)
                  \<lparr>timestamp_cache = timestamps d, point_cloud_cache = cache,
                   current_index = 0, timer = None, published = []\<rparr>))
          else (log, Inl OutOfRange))"

text \<open>The first statement of the callback: the wraparound of the cursor.\<close>

definition wraparound :: "node \<Rightarrow> node" where
  "wraparound n =
     (if unat (current_index n) = length (point_cloud_cache n) then n\<lparr>current_index := 0\<rparr> else n)"

text \<open>
  The wait the callback computes. \<^verbatim>\<open>current_index_ + 1\<close> is computed in
  \<^verbatim>\<open>std::uint32_t\<close> and then compared with, or used as an index into, the vector.
\<close>

definition sleep_duration_nanosec :: "node \<Rightarrow> error + int64" where
  "sleep_duration_nanosec n =
     (if unat (current_index n + 1) \<noteq> length (timestamp_cache n)
      then (if unat (current_index n + 1) < length (timestamp_cache n)
               \<and> unat (current_index n) < length (timestamp_cache n)
            then Inr (timestamp_cache n ! unat (current_index n + 1)
                        - timestamp_cache n ! unat (current_index n))
            else Inl OutOfRange)
      else Inr boundary_sleep)"

definition timer_callback :: "node \<Rightarrow> error + node" where
  "timer_callback n =
     (let n1 = wraparound n in
      if unat (current_index n1) < length (point_cloud_cache n1)
      then (let n2 = n1\<lparr>published :=
                      published n1 @ [point_cloud_cache n1 ! unat (current_index n1)]\<rparr> in
            case sleep_duration_nanosec n2 of
              Inl e \<Rightarrow> Inl e
            | Inr d \<Rightarrow> Inr (updateTimerAndPublish d (n2\<lparr>current_index := current_index n2 + 1\<rparr>)))
      else Inl OutOfRange)"

text \<open>\<open>run k n\<close>: the timer fires \<open>k\<close> times, starting in state \<open>n\<close>.\<close>

fun run :: "nat \<Rightarrow> node \<Rightarrow> error + node" where
  "run 0 n = Inr n"
| "run (Suc k) n = (case timer_callback n of Inl e \<Rightarrow> Inl e | Inr n' \<Rightarrow> run k n')"

section \<open>Reference formulations and test data\<close>

text \<open>
  The loop of the constructor, said with \<open>filter\<close> and \<open>map\<close>: the points of a file, what
  one pass of the loop writes to the outside, and the frames of a list of (timestamp, file)
  pairs. The lemma \<open>load_loop_closed\<close> below shows that the loop computes exactly these.
\<close>

definition points_of :: "filesystem \<Rightarrow> string \<Rightarrow> PointCartesian list" where
  "points_of fs filename = snd (loadPointCloudDataFromBin fs filename)"

definition item_events :: "filesystem \<Rightarrow> string \<Rightarrow> event list" where
  "item_events fs filename =
     fst (loadPointCloudDataFromBin fs filename) @
     (if points_of fs filename = [] then [Cout ''Empty binary file, skipping.''] else [])"

definition frames_of :: "filesystem \<Rightarrow> (int64 \<times> string) list \<Rightarrow> PointCloud2 list" where
  "frames_of fs items =
     map (\<lambda>(t, filename). point_cloud_message t (points_of fs filename))
       (filter (\<lambda>(t, filename). points_of fs filename \<noteq> []) items)"

text \<open>The exception the spec calls \<^verbatim>\<open>LoadError::CountMismatch\<close>.\<close>

definition CountMismatch :: error where
  "CountMismatch = RuntimeError ''The number of timestamps does not equal the number of data files''"

text \<open>
  The cursor as the next firing will use it: the index of the frame that firing publishes.
\<close>

definition cursor :: "node \<Rightarrow> nat" where
  "cursor n = unat (current_index (wraparound n))"

text \<open>
  What holds of the node between two firings once the constructor has returned with a cache
  that is not empty and whose size the 32-bit cursor can hold.
\<close>

definition playing :: "node \<Rightarrow> bool" where
  "playing n =
     (point_cloud_cache n \<noteq> [] \<and>
      length (point_cloud_cache n) \<le> length (timestamp_cache n) \<and>
      length (point_cloud_cache n) < 2 ^ 32 \<and>
      unat (current_index n) \<le> length (point_cloud_cache n))"

text \<open>
  The wait the callback computes when it publishes frame \<open>c\<close>, as a function of \<open>c\<close>: the
  test of the callback is against the number of timestamps.
\<close>

definition wait_at :: "int64 list \<Rightarrow> nat \<Rightarrow> int64" where
  "wait_at ts c = (if c + 1 = length ts then boundary_sleep else ts ! (c + 1) - ts ! c)"

text \<open>
  Test data: a file with one point (16 bytes), a file with five floats (20 bytes), and a
  data set whose three paths exist, given by its timestamps and its files in the order of
  their names; a name with no content stands for a file that cannot be opened.
\<close>

definition one_point :: "byte list" where
  "one_point = [1, 2, 3, 4, 5, 6, 7, 8, 9, 10, 11, 12, 13, 14, 15, 16]"

definition five_floats :: "byte list" where
  "five_floats = one_point @ [17, 18, 19, 20]"

definition dataset_of :: "int64 list \<Rightarrow> (string \<times> byte list option) list \<Rightarrow> dataset" where
  "dataset_of ts fl =
     \<lparr>data_path_exists = True, timestamps_file_exists = True, binary_data_path_exists = True,
      timestamps = ts, data_files = map fst fl,
      files = (\<lambda>filename. case map_of fl filename of None \<Rightarrow> None | Some c \<Rightarrow> c)\<rparr>"

section \<open>Properties of the decoder\<close>

text \<open>One pass of the decoder's loop builds the point at index \<open>i\<close> of the buffer.\<close>

definition point_at :: "(nat \<Rightarrow> float32) \<Rightarrow> nat \<Rightarrow> PointCartesian" where
  "point_at buf i = \<lparr>x_m = buf i, y_m = buf (i + 1), z_m = buf (i + 2), intensity = buf (i + 3)\<rparr>"

lemma copy_points_closed:
  "copy_points buf n i pc = pc @ map (\<lambda>k. point_at buf (i + 4 * k)) [0..<(n - i + 3) div 4]"
proof (induction buf n i pc rule: copy_points.induct)
  case (1 buf n i pc)
  show ?case
  proof (cases "i < n")
    case False
    then show ?thesis by (simp add: copy_points.simps)
  next
    case True
    then have cnt: "(n - i + 3) div 4 = Suc ((n - (i + 4) + 3) div 4)" by arith
    have shift: "map (\<lambda>k. point_at buf (i + 4 * k)) [0..<Suc m] =
        point_at buf i # map (\<lambda>k. point_at buf (i + 4 + 4 * k)) [0..<m]" for m
      by (simp add: upt_conv_Cons map_Suc_upt [symmetric] add.assoc del: upt_Suc)
    have "copy_points buf n i pc = copy_points buf n (i + 4) (pc @ [point_at buf i])"
      using True by (subst copy_points.simps) (simp add: point_at_def)
    also have "\<dots> = (pc @ [point_at buf i]) @
        map (\<lambda>k. point_at buf (i + 4 + 4 * k)) [0..<(n - (i + 4) + 3) div 4]"
      using "1.IH" [OF True] by (simp add: point_at_def)
    finally show ?thesis by (simp add: cnt shift del: upt_Suc)
  qed
qed

lemma length_copy_points: "length (copy_points buf n 0 []) = (n + 3) div 4"
  by (simp add: copy_points_closed)

lemma length_decode: "length (decode content) = (number_of_floats content + 3) div 4"
  by (simp add: decode_def length_copy_points)

lemma number_of_floats_le: "number_of_floats content \<le> buffer_size"
  by (simp add: number_of_floats_def gcount_def sizeof_float_def)

lemma gcount_le: "gcount content \<le> 4000000"
  by (simp add: gcount_def buffer_size_def sizeof_float_def)

lemma length_decode_le: "length (decode content) \<le> 250000"
proof -
  have "number_of_floats content \<le> 1000000"
    using number_of_floats_le [of content] by (simp add: buffer_size_def)
  then show ?thesis by (simp add: length_decode)
qed

lemma gcount_take: "gcount (take 4000000 content) = gcount content"
  by (simp add: gcount_def buffer_size_def sizeof_float_def)

lemma data_buffer_take: "data_buffer (take 4000000 content) = data_buffer content"
proof -
  have "buffer_byte (take 4000000 content) j = buffer_byte content j" for j
    using gcount_le [of content] by (simp add: buffer_byte_def gcount_take)
  then show ?thesis by (simp add: data_buffer_def fun_eq_iff)
qed

lemma decode_take: "decode (take 4000000 content) = decode content"
  by (simp add: decode_def data_buffer_take number_of_floats_def gcount_take)

lemma decode_Nil: "decode [] = []"
  by (simp add: decode_def copy_points_closed number_of_floats_def gcount_def)

lemma length_points_of_le: "length (points_of fs filename) \<le> 250000"
  by (simp add: points_of_def loadPointCloudDataFromBin_def length_decode_le split: option.split)

lemma points_of_unreadable: "fs filename = None \<Longrightarrow> points_of fs filename = []"
  by (simp add: points_of_def loadPointCloudDataFromBin_def)

lemma points_of_readable: "fs filename = Some content \<Longrightarrow> points_of fs filename = decode content"
  by (simp add: points_of_def loadPointCloudDataFromBin_def)

lemmas decode_eval =
  decode_def copy_points_closed number_of_floats_def gcount_def buffer_size_def sizeof_float_def
  five_floats_def one_point_def point_at_def data_buffer_def buffer_byte_def upt_conv_Cons

lemma decode_one_point:
  "decode one_point =
     [\<lparr>x_m = (1, 2, 3, 4), y_m = (5, 6, 7, 8), z_m = (9, 10, 11, 12),
       intensity = (13, 14, 15, 16)\<rparr>]"
  by (simp add: decode_eval)

lemma decode_five_floats:
  "decode five_floats =
     [\<lparr>x_m = (1, 2, 3, 4), y_m = (5, 6, 7, 8), z_m = (9, 10, 11, 12),
       intensity = (13, 14, 15, 16)\<rparr>,
      \<lparr>x_m = (17, 18, 19, 20), y_m = (0, 0, 0, 0), z_m = (0, 0, 0, 0),
       intensity = (0, 0, 0, 0)\<rparr>]"
  by (simp add: decode_eval)

lemma length_point_bytes: "length (concat (map point_bytes ps)) = 16 * length ps"
proof -
  have "length (float_bytes v) = 4" for v
    by (cases v) simp
  then show ?thesis
    by (induction ps) (simp_all add: point_bytes_def)
qed

lemma frames_of_widths:
  assumes "m \<in> set (frames_of fs items)"
  shows "unat (width m) \<le> 250000 \<and> length (data m) = sizeof_PointCartesian * unat (width m)"
proof -
  from assms obtain t f where m: "m = point_cloud_message t (points_of fs f)"
    by (auto simp: frames_of_def)
  have le: "length (points_of fs f) \<le> 250000"
    by (rule length_points_of_le)
  then have "unat (of_nat (length (points_of fs f)) :: uint32) = length (points_of fs f)"
    by (simp add: unat_of_nat)
  then show ?thesis
    using le by (simp add: m point_cloud_message_def sizeof_PointCartesian_def length_point_bytes)
qed

text \<open>
  C4. The claim: the decoder returns exactly \<open>floor (n / 4)\<close> records for \<open>n\<close> complete
  floats read, a trailing partial quadruple contributing no record. The code at a file of
  five floats (20 bytes): the loop runs while \<open>i < number_of_floats\<close>, so it runs a second
  time at \<open>i = 4\<close> and returns two records; the second one is the fifth float followed by
  three floats of the zero-filled buffer. The number of records is \<open>(n + 3) div 4\<close>
  (lemma \<open>length_decode\<close>), although the code reserves room for \<open>n div 4\<close>.
\<close>

theorem decoder_pads_trailing_partial_quadruple:
  "number_of_floats five_floats = 5 \<and>
   length (decode five_floats) = 2 \<and>
   decode five_floats =
     [\<lparr>x_m = (1, 2, 3, 4), y_m = (5, 6, 7, 8), z_m = (9, 10, 11, 12),
       intensity = (13, 14, 15, 16)\<rparr>,
      \<lparr>x_m = (17, 18, 19, 20), y_m = (0, 0, 0, 0), z_m = (0, 0, 0, 0),
       intensity = (0, 0, 0, 0)\<rparr>]"
  by (simp add: decode_eval)

section \<open>Properties of the constructor\<close>

lemma load_loop_closed:
  "length fnames = length ts \<Longrightarrow>
   load_loop fs ts fnames i (log, cache) =
     (log @ concat (map (item_events fs) (drop i fnames)),
      cache @ frames_of fs (drop i (zip ts fnames)))"
proof (induction fs ts fnames i "(log, cache)" arbitrary: log cache rule: load_loop.induct)
  case (1 fs ts fnames i log cache)
  show ?case
  proof (cases "i < length ts")
    case False
    then show ?thesis using "1.prems" by (simp add: load_loop.simps frames_of_def)
  next
    case True
    obtain ev pcd where ld: "loadPointCloudDataFromBin fs (fnames ! i) = (ev, pcd)"
      by (cases "loadPointCloudDataFromBin fs (fnames ! i)")
    have dz: "drop i (zip ts fnames) = (ts ! i, fnames ! i) # drop (Suc i) (zip ts fnames)"
      using Cons_nth_drop_Suc [of i "zip ts fnames"] True "1.prems" by simp
    have df: "drop i fnames = fnames ! i # drop (Suc i) fnames"
      using Cons_nth_drop_Suc [of i fnames] True "1.prems" by simp
    show ?thesis
    proof (cases "pcd = []")
      case True
      have "load_loop fs ts fnames i (log, cache) =
            load_loop fs ts fnames (i + 1) (log @ ev @ [Cout ''Empty binary file, skipping.''], cache)"
        using \<open>i < length ts\<close> ld True by (subst load_loop.simps) simp
      also have "\<dots> = ((log @ ev @ [Cout ''Empty binary file, skipping.'']) @
                         concat (map (item_events fs) (drop (i + 1) fnames)),
                       cache @ frames_of fs (drop (i + 1) (zip ts fnames)))"
        using "1.hyps"(1) [OF \<open>i < length ts\<close> ld [symmetric] True "1.prems"] by simp
      finally show ?thesis
        using ld True by (simp add: dz df item_events_def frames_of_def points_of_def)
    next
      case False
      have "load_loop fs ts fnames i (log, cache) =
            load_loop fs ts fnames (i + 1) (log @ ev, cache @ [point_cloud_message (ts ! i) pcd])"
        using \<open>i < length ts\<close> ld False by (subst load_loop.simps) simp
      also have "\<dots> = ((log @ ev) @ concat (map (item_events fs) (drop (i + 1) fnames)),
                       (cache @ [point_cloud_message (ts ! i) pcd]) @
                         frames_of fs (drop (i + 1) (zip ts fnames)))"
        using "1.hyps"(2) [OF \<open>i < length ts\<close> ld [symmetric] False "1.prems"] by simp
      finally show ?thesis
        using ld False by (simp add: dz df item_events_def frames_of_def points_of_def)
    qed
  qed
qed

lemma build_cache_ok:
  assumes "data_path_exists d" "timestamps_file_exists d" "binary_data_path_exists d"
    and "length (data_files d) = length (timestamps d)"
  shows "build_cache d =
           (concat (map (item_events (files d)) (data_files d)),
            Inr (frames_of (files d) (zip (timestamps d) (data_files d))))"
  using assms by (simp add: build_cache_def load_loop_closed)

lemma build_cache_Inr:
  "build_cache d = (log, Inr cache) \<Longrightarrow>
     length (data_files d) = length (timestamps d) \<and>
     log = concat (map (item_events (files d)) (data_files d)) \<and>
     cache = frames_of (files d) (zip (timestamps d) (data_files d))"
  by (auto simp: build_cache_def load_loop_closed split: if_splits)

lemma length_frames_of:
  "length (frames_of fs items) + length (filter (\<lambda>(t, f). points_of fs f = []) items) = length items"
  by (induction items) (auto simp: frames_of_def)

lemma stamps_frames_of:
  "map stamp (frames_of fs items) = map fst (filter (\<lambda>(t, f). points_of fs f \<noteq> []) items)"
  by (induction items) (auto simp: frames_of_def point_cloud_message_def)

lemma dataset_of_simps:
  "data_path_exists (dataset_of ts fl)" "timestamps_file_exists (dataset_of ts fl)"
  "binary_data_path_exists (dataset_of ts fl)" "timestamps (dataset_of ts fl) = ts"
  "data_files (dataset_of ts fl) = map fst fl"
  "files (dataset_of ts fl) = (\<lambda>filename. case map_of fl filename of None \<Rightarrow> None | Some c \<Rightarrow> c)"
  by (simp_all add: dataset_of_def)

text \<open>
  C10. The decoder reads at most 1,000,000 floats (4,000,000 bytes) of a file, so it
  returns at most 250,000 points, every frame of a built cache has at most 250,000 points
  (its width) with 16 bytes of data each, and what a file holds beyond its first 4,000,000
  bytes changes nothing. \<open>MAX_POINTS\<close> (200,000) is enforced nowhere: a file of 4,000,000
  bytes decodes to more points than that.
\<close>

theorem decoder_reads_at_most_one_buffer:
  "gcount content \<le> 4000000 \<and>
   number_of_floats content \<le> 1000000 \<and>
   length (decode content) \<le> 250000 \<and>
   decode (take 4000000 content) = decode content \<and>
   length (snd (loadPointCloudDataFromBin fs filename)) \<le> 250000 \<and>
   (\<forall>log cache. build_cache d = (log, Inr cache) \<longrightarrow>
      (\<forall>m \<in> set cache. unat (width m) \<le> 250000 \<and>
         length (data m) = sizeof_PointCartesian * unat (width m))) \<and>
   MAX_POINTS < length (decode (replicate 4000000 0))"
proof -
  have "number_of_floats content \<le> 1000000"
    using number_of_floats_le [of content] by (simp add: buffer_size_def)
  moreover have "length (snd (loadPointCloudDataFromBin fs filename)) \<le> 250000"
    using length_points_of_le [of fs filename] by (simp add: points_of_def)
  moreover have "MAX_POINTS < length (decode (replicate 4000000 0))"
    by (simp add: length_decode number_of_floats_def gcount_def buffer_size_def
        sizeof_float_def MAX_POINTS_def)
  moreover have "\<forall>log cache. build_cache d = (log, Inr cache) \<longrightarrow>
      (\<forall>m \<in> set cache. unat (width m) \<le> 250000 \<and>
         length (data m) = sizeof_PointCartesian * unat (width m))"
    using build_cache_Inr [of d] frames_of_widths by blast
  ultimately show ?thesis
    by (simp add: gcount_le length_decode_le decode_take)
qed

theorem decoder_reads_at_most_one_buffer_witness:
  "\<exists>log cache.
     build_cache (dataset_of [1000, 1500] [(''0.bin'', Some one_point), (''1.bin'', Some five_floats)])
       = (log, Inr cache) \<and>
     map (\<lambda>m. unat (width m)) cache = [1, 2] \<and>
     list_all (\<lambda>m. unat (width m) \<le> 250000 \<and>
        length (data m) = sizeof_PointCartesian * unat (width m)) cache \<and>
     length (decode five_floats) \<le> 250000"
proof -
  let ?d = "dataset_of [1000, 1500] [(''0.bin'', Some one_point), (''1.bin'', Some five_floats)]"
  let ?cache = "frames_of (files ?d) (zip (timestamps ?d) (data_files ?d))"
  have b: "build_cache ?d = (concat (map (item_events (files ?d)) (data_files ?d)), Inr ?cache)"
    by (rule build_cache_ok) (simp_all add: dataset_of_simps)
  have w: "map (\<lambda>m. unat (width m)) ?cache = [1, 2]"
    by (simp add: dataset_of_simps frames_of_def points_of_def loadPointCloudDataFromBin_def
        decode_one_point decode_five_floats point_cloud_message_def)
  from decoder_reads_at_most_one_buffer [of five_floats "files ?d" "''0.bin''" ?d] b
  have "\<forall>m \<in> set ?cache. unat (width m) \<le> 250000 \<and>
         length (data m) = sizeof_PointCartesian * unat (width m)"
    and "length (decode five_floats) \<le> 250000"
    by blast+
  then show ?thesis
    using b w by (simp add: list_all_iff)
qed

text \<open>
  C6. When the number of timestamps differs from the number of data files (and the three
  paths exist, so that the constructor gets as far as comparing them), the constructor
  throws the count mismatch, whatever the timestamps, the file names and the files are, and
  it has opened no file and written no line by then.
\<close>

theorem count_mismatch_fails_before_decoding:
  assumes "data_path_exists d" and "timestamps_file_exists d" and "binary_data_path_exists d"
    and "length (timestamps d) \<noteq> length (data_files d)"
  shows "build_cache d = ([], Inl CountMismatch) \<and> construct d = ([], Inl CountMismatch)"
  using assms by (auto simp: build_cache_def construct_def CountMismatch_def)

theorem count_mismatch_fails_before_decoding_witness:
  "length (timestamps (dataset_of [1000, 1500] [(''0.bin'', Some one_point)]))
     \<noteq> length (data_files (dataset_of [1000, 1500] [(''0.bin'', Some one_point)])) \<and>
   build_cache (dataset_of [1000, 1500] [(''0.bin'', Some one_point)]) = ([], Inl CountMismatch) \<and>
   construct (dataset_of [1000, 1500] [(''0.bin'', Some one_point)]) = ([], Inl CountMismatch)"
  using count_mismatch_fails_before_decoding
    [of "dataset_of [1000, 1500] [(''0.bin'', Some one_point)]"]
  by (simp add: dataset_of_simps)

lemma frames_of_cong:
  "(\<And>f. points_of fs' f = points_of fs f) \<Longrightarrow> frames_of fs' items = frames_of fs items"
  by (simp add: frames_of_def)

lemma points_of_unreadable_as_empty:
  assumes "fs f = None"
  shows "points_of (fs(f \<mapsto> [])) g = points_of fs g"
proof (cases "g = f")
  case True
  then show ?thesis
    using assms by (simp add: points_of_unreadable points_of_readable decode_Nil)
next
  case False
  then show ?thesis
    by (simp add: points_of_def loadPointCloudDataFromBin_def)
qed

lemma build_cache_unreadable_as_empty:
  assumes "files d f = None"
  shows "snd (build_cache (d\<lparr>files := (files d)(f \<mapsto> [])\<rparr>)) = snd (build_cache d)"
proof -
  have "frames_of ((files d)(f \<mapsto> [])) items = frames_of (files d) items" for items
    by (rule frames_of_cong) (rule points_of_unreadable_as_empty [of "files d" f, OF assms])
  then show ?thesis
    by (simp add: build_cache_def load_loop_closed)
qed

text \<open>
  C7. For timestamps and data files of equal number (the three paths existing), the loop
  of the constructor returns a cache that is the list of inputs with the files of no
  points filtered out, each remaining file made a message with its own timestamp: the cache
  is no longer than the input, as much shorter as there are files without points, and in
  the order of the input. A file that cannot be opened throws nothing: it has no points,
  is skipped like an empty file, and the cache is the one built with an empty file in its
  place.
\<close>

theorem build_keeps_order_and_skips_empty_sources:
  assumes "data_path_exists d" and "timestamps_file_exists d" and "binary_data_path_exists d"
    and "length (data_files d) = length (timestamps d)"
  shows "\<exists>log cache.
     build_cache d = (log, Inr cache) \<and>
     cache = frames_of (files d) (zip (timestamps d) (data_files d)) \<and>
     length cache \<le> length (timestamps d) \<and>
     length cache + length (filter (\<lambda>f. points_of (files d) f = []) (data_files d))
       = length (timestamps d) \<and>
     map stamp cache =
       map fst (filter (\<lambda>(t, f). points_of (files d) f \<noteq> []) (zip (timestamps d) (data_files d))) \<and>
     subseq (map stamp cache) (timestamps d) \<and>
     (\<forall>f. files d f = None \<longrightarrow>
        loadPointCloudDataFromBin (files d) f
          = ([OpenFile f, Cerr (''Could not read file: '' @ f)], []) \<and>
        snd (build_cache (d\<lparr>files := (files d)(f \<mapsto> [])\<rparr>)) = Inr cache)"
proof -
  let ?items = "zip (timestamps d) (data_files d)"
  let ?cache = "frames_of (files d) ?items"
  have b: "build_cache d = (concat (map (item_events (files d)) (data_files d)), Inr ?cache)"
    using assms by (rule build_cache_ok)
  have len: "length ?items = length (timestamps d)"
    using assms(4) by simp
  have flt: "length (filter (\<lambda>(t, f). points_of (files d) f = []) ?items)
      = length (filter (\<lambda>f. points_of (files d) f = []) (data_files d))"
  proof -
    have "filter (\<lambda>f. points_of (files d) f = []) (map snd ?items)
        = map snd (filter (\<lambda>(t, f). points_of (files d) f = []) ?items)"
      by (simp add: filter_map comp_def case_prod_unfold)
    moreover have "map snd ?items = data_files d"
      using assms(4) by simp
    ultimately show ?thesis
      by (metis length_map)
  qed
  have cnt: "length ?cache + length (filter (\<lambda>f. points_of (files d) f = []) (data_files d))
      = length (timestamps d)"
    using length_frames_of [of "files d" ?items] flt assms(4) by simp
  have st: "map stamp ?cache = map fst (filter (\<lambda>(t, f). points_of (files d) f \<noteq> []) ?items)"
    by (rule stamps_frames_of)
  have "subseq (map fst (filter (\<lambda>(t, f). points_of (files d) f \<noteq> []) ?items)) (map fst ?items)"
    by (intro subseq_map subseq_filter_left)
  moreover have "map fst ?items = timestamps d"
    using assms(4) by simp
  ultimately have sub: "subseq (map stamp ?cache) (timestamps d)"
    by (simp add: st)
  have unr: "\<forall>f. files d f = None \<longrightarrow>
        loadPointCloudDataFromBin (files d) f
          = ([OpenFile f, Cerr (''Could not read file: '' @ f)], []) \<and>
        snd (build_cache (d\<lparr>files := (files d)(f \<mapsto> [])\<rparr>)) = Inr ?cache"
    using build_cache_unreadable_as_empty [of d] b
    by (simp add: loadPointCloudDataFromBin_def)
  from cnt have "length ?cache \<le> length (timestamps d)"
    by arith
  with b cnt st sub unr show ?thesis
    by blast
qed

theorem build_keeps_order_and_skips_empty_sources_witness:
  "\<exists>log cache.
     build_cache (dataset_of [1000, 1500, 5000, 7000]
        [(''0.bin'', Some one_point), (''1.bin'', None), (''2.bin'', Some []),
         (''3.bin'', Some five_floats)]) = (log, Inr cache) \<and>
     map stamp cache = [1000, 7000] \<and>
     length cache = 2 \<and>
     snd (build_cache (dataset_of [1000, 1500, 5000, 7000]
        [(''0.bin'', Some one_point), (''1.bin'', None), (''2.bin'', Some []),
         (''3.bin'', Some five_floats)]
        \<lparr>files := (files (dataset_of [1000, 1500, 5000, 7000]
            [(''0.bin'', Some one_point), (''1.bin'', None), (''2.bin'', Some []),
             (''3.bin'', Some five_floats)]))(''1.bin'' \<mapsto> [])\<rparr>)) = Inr cache"
proof -
  let ?d = "dataset_of [1000, 1500, 5000, 7000]
        [(''0.bin'', Some one_point), (''1.bin'', None), (''2.bin'', Some []),
         (''3.bin'', Some five_floats)]"
  have p: "points_of (files ?d) ''0.bin'' \<noteq> []" "points_of (files ?d) ''1.bin'' = []"
    "points_of (files ?d) ''2.bin'' = []" "points_of (files ?d) ''3.bin'' \<noteq> []"
    by (simp_all add: dataset_of_simps points_of_def loadPointCloudDataFromBin_def
        decode_one_point decode_five_floats decode_Nil)
  have n: "files ?d ''1.bin'' = None"
    by (simp add: dataset_of_simps)
  from build_keeps_order_and_skips_empty_sources [of ?d]
  obtain log cache where b: "build_cache ?d = (log, Inr cache)"
    and st: "map stamp cache = map fst (filter (\<lambda>(t, f). points_of (files ?d) f \<noteq> [])
          (zip (timestamps ?d) (data_files ?d)))"
    and u: "\<forall>f. files ?d f = None \<longrightarrow>
        loadPointCloudDataFromBin (files ?d) f
          = ([OpenFile f, Cerr (''Could not read file: '' @ f)], []) \<and>
        snd (build_cache (?d\<lparr>files := (files ?d)(f \<mapsto> [])\<rparr>)) = Inr cache"
    by (auto simp: dataset_of_simps)
  have "map stamp cache = [1000, 7000]"
    using p by (simp add: st dataset_of_simps)
  moreover from this have "length cache = 2"
    by (metis length_map length_Cons list.size(3) numeral_2_eq_2)
  moreover have "snd (build_cache (?d\<lparr>files := (files ?d)(''1.bin'' \<mapsto> [])\<rparr>)) = Inr cache"
    using u n by blast
  ultimately show ?thesis
    using b by (intro exI [of _ log] exI [of _ cache]) simp
qed

section \<open>Properties of the timer callback\<close>

lemma unat_succ:
  fixes c :: uint32
  assumes "unat c < n" and "n < 2 ^ 32"
  shows "unat (c + 1) = unat c + 1"
proof -
  have "unat c + unat (1 :: uint32) < 2 ^ LENGTH(32)"
    using assms by simp
  then have "unat (c + 1) = unat c + unat (1 :: uint32)"
    by (simp only: unat_add_lem)
  then show ?thesis by simp
qed

lemma wraparound_fields:
  "timestamp_cache (wraparound n) = timestamp_cache n"
  "point_cloud_cache (wraparound n) = point_cloud_cache n"
  "timer (wraparound n) = timer n"
  "published (wraparound n) = published n"
  by (simp_all add: wraparound_def)

lemma cursor_less: "playing n \<Longrightarrow> cursor n < length (point_cloud_cache n)"
  by (auto simp: playing_def cursor_def wraparound_def)

lemma cursor_eq:
  "cursor n = (if unat (current_index n) = length (point_cloud_cache n) then 0
               else unat (current_index n))"
  by (simp add: cursor_def wraparound_def)

text \<open>One firing in a state that is playing: it cannot fail, and this is the state after it.\<close>

lemma timer_callback_playing:
  assumes "playing n"
  shows "timer_callback n =
     Inr (n\<lparr>current_index := of_nat (cursor n + 1),
            timer := Some (wait_at (timestamp_cache n) (cursor n)),
            published := published n @ [point_cloud_cache n ! cursor n]\<rparr>)"
proof -
  let ?w = "wraparound n"
  let ?c = "current_index ?w"
  have lt: "unat ?c < length (point_cloud_cache n)"
    using cursor_less [OF assms] by (simp add: cursor_def)
  have bound: "length (point_cloud_cache n) < 2 ^ 32"
    and le: "length (point_cloud_cache n) \<le> length (timestamp_cache n)"
    using assms by (simp_all add: playing_def)
  have succ: "unat (?c + 1) = unat ?c + 1"
    using lt bound by (rule unat_succ)
  have cw: "?c + 1 = of_nat (cursor n + 1)"
    by (simp add: cursor_def)
  have sl: "sleep_duration_nanosec
      (?w\<lparr>published := published ?w @ [point_cloud_cache ?w ! unat ?c]\<rparr>)
      = Inr (wait_at (timestamp_cache n) (cursor n))"
    using lt le succ
    by (auto simp: sleep_duration_nanosec_def wait_at_def cursor_def wraparound_fields)
  have "timer_callback n =
     Inr (?w\<lparr>published := published n @ [point_cloud_cache n ! cursor n],
            current_index := of_nat (cursor n + 1),
            timer := Some (wait_at (timestamp_cache n) (cursor n))\<rparr>)"
    using lt sl cw
    by (simp add: timer_callback_def Let_def updateTimerAndPublish_def wraparound_fields cursor_def)
  also have "?w\<lparr>published := published n @ [point_cloud_cache n ! cursor n],
            current_index := of_nat (cursor n + 1),
            timer := Some (wait_at (timestamp_cache n) (cursor n))\<rparr>
      = n\<lparr>current_index := of_nat (cursor n + 1),
            timer := Some (wait_at (timestamp_cache n) (cursor n)),
            published := published n @ [point_cloud_cache n ! cursor n]\<rparr>"
    by (simp add: wraparound_def)
  finally show ?thesis .
qed


lemma playing_fired:
  assumes "playing n"
  defines "m \<equiv> n\<lparr>current_index := of_nat (cursor n + 1),
            timer := Some (wait_at (timestamp_cache n) (cursor n)),
            published := published n @ [point_cloud_cache n ! cursor n]\<rparr>"
  shows "playing m" and "unat (current_index m) = cursor n + 1"
    and "cursor m = (cursor n + 1) mod length (point_cloud_cache n)"
proof -
  let ?N = "length (point_cloud_cache n)"
  have lt: "cursor n < ?N" using assms(1) by (rule cursor_less)
  have bound: "?N < 2 ^ 32" using assms(1) by (simp add: playing_def)
  have "cursor n + 1 < 2 ^ 32" using lt bound by arith
  then have u: "unat (of_nat (cursor n + 1) :: uint32) = cursor n + 1"
    by (intro of_nat_inverse [OF refl]) simp
  show "unat (current_index m) = cursor n + 1"
    using u by (simp add: m_def)
  show "playing m"
    using assms(1) lt u by (simp add: playing_def m_def)
  show "cursor m = (cursor n + 1) mod ?N"
  proof (cases "cursor n + 1 = ?N")
    case True
    then show ?thesis using u by (simp add: cursor_eq m_def)
  next
    case False
    with lt have "cursor n + 1 < ?N" by arith
    then show ?thesis using u by (simp add: cursor_eq m_def)
  qed
qed

lemma run_snoc:
  "run (Suc k) n = (case run k n of Inl e \<Rightarrow> Inl e | Inr m \<Rightarrow> timer_callback m)"
proof (induction k arbitrary: n)
  case 0
  show ?case by (simp split: sum.split)
next
  case (Suc k)
  show ?case
  proof (cases "timer_callback n")
    case (Inl e)
    then show ?thesis by simp
  next
    case (Inr n')
    have "run (Suc (Suc k)) n = run (Suc k) n'"
      using Inr by simp
    also have "\<dots> = (case run k n' of Inl e \<Rightarrow> Inl e | Inr m \<Rightarrow> timer_callback m)"
      by (rule Suc.IH)
    also have "run k n' = run (Suc k) n"
      using Inr by simp
    finally show ?thesis .
  qed
qed

lemma run_playing:
  assumes "playing n"
  shows "\<exists>m. run k n = Inr m \<and> playing m \<and>
           timestamp_cache m = timestamp_cache n \<and>
           point_cloud_cache m = point_cloud_cache n \<and>
           cursor m = (cursor n + k) mod length (point_cloud_cache n) \<and>
           published m = published n @
             map (\<lambda>j. point_cloud_cache n ! ((cursor n + j) mod length (point_cloud_cache n))) [0..<k]"
proof (induction k)
  case 0
  show ?case
    using assms cursor_less [OF assms] by simp
next
  case (Suc k)
  then obtain m where m: "run k n = Inr m" "playing m"
      "timestamp_cache m = timestamp_cache n" "point_cloud_cache m = point_cloud_cache n"
      "cursor m = (cursor n + k) mod length (point_cloud_cache n)"
      "published m = published n @
         map (\<lambda>j. point_cloud_cache n ! ((cursor n + j) mod length (point_cloud_cache n))) [0..<k]"
    by blast
  let ?m' = "m\<lparr>current_index := of_nat (cursor m + 1),
            timer := Some (wait_at (timestamp_cache m) (cursor m)),
            published := published m @ [point_cloud_cache m ! cursor m]\<rparr>"
  have r: "run (Suc k) n = Inr ?m'"
    using m(1) timer_callback_playing [OF m(2)] by (simp only: run_snoc sum.case)
  have c: "cursor ?m' = (cursor n + Suc k) mod length (point_cloud_cache n)"
    using playing_fired(3) [OF m(2)] m(4,5) by (simp add: mod_Suc_eq)
  have "playing ?m'"
    using m(2) by (rule playing_fired(1))
  with r c m(3,4,5,6) show ?case
    by simp
qed

lemma construct_Inr:
  assumes "construct d = (log, Inr n)"
  shows "timestamp_cache n = timestamps d" and "current_index n = 0"
    and "timer n = Some (timestamps d ! 1 - timestamps d ! 0)" and "published n = []"
    and "build_cache d = (log, Inr (point_cloud_cache n))"
    and "1 < length (timestamps d)"
    and "length (point_cloud_cache n) \<le> length (timestamp_cache n)"
proof -
  obtain l r where b: "build_cache d = (l, r)" by (cases "build_cache d")
  from assms b obtain cache where r: "r = Inr cache"
    by (cases r) (auto simp: construct_def)
  from assms b r have l: "l = log" and len: "1 < length (timestamps d)"
    and n: "n = updateTimerAndPublish (timestamps d ! 1 - timestamps d ! 0)
                  \<lparr>timestamp_cache = timestamps d, point_cloud_cache = cache,
                   current_index = 0, timer = None, published = []\<rparr>"
    by (auto simp: construct_def split: if_splits)
  show "timestamp_cache n = timestamps d" "current_index n = 0"
    "timer n = Some (timestamps d ! 1 - timestamps d ! 0)" "published n = []"
    by (simp_all add: n updateTimerAndPublish_def)
  show bc: "build_cache d = (log, Inr (point_cloud_cache n))"
    using b r l by (simp add: n updateTimerAndPublish_def)
  show "1 < length (timestamps d)" by (rule len)
  have "length (frames_of (files d) (zip (timestamps d) (data_files d))) \<le> length (timestamps d)"
    using length_frames_of [of "files d" "zip (timestamps d) (data_files d)"] by simp
  then show "length (point_cloud_cache n) \<le> length (timestamp_cache n)"
    using build_cache_Inr [OF bc] by (simp add: n updateTimerAndPublish_def)
qed

lemma construct_playing:
  assumes "construct d = (log, Inr n)" and "point_cloud_cache n \<noteq> []"
    and "length (point_cloud_cache n) < 2 ^ 32"
  shows "playing n" and "cursor n = 0"
  using assms construct_Inr(2,7) [OF assms(1)]
  by (auto simp: playing_def cursor_eq)

lemma run_Suc_playing:
  assumes "playing n"
  shows "\<exists>m m'. run k n = Inr m \<and> timer_callback m = Inr m' \<and> run (Suc k) n = Inr m' \<and>
           playing m \<and>
           timestamp_cache m = timestamp_cache n \<and>
           point_cloud_cache m = point_cloud_cache n \<and>
           cursor m = (cursor n + k) mod length (point_cloud_cache n) \<and>
           published m = published n @
             map (\<lambda>j. point_cloud_cache n ! ((cursor n + j) mod length (point_cloud_cache n))) [0..<k] \<and>
           unat (current_index m') = cursor m + 1 \<and>
           timer m' = Some (wait_at (timestamp_cache n) (cursor m)) \<and>
           published m' = published m @ [point_cloud_cache n ! cursor m]"
proof -
  from run_playing [OF assms, of k]
  obtain m where m: "run k n = Inr m" "playing m"
      "timestamp_cache m = timestamp_cache n" "point_cloud_cache m = point_cloud_cache n"
      "cursor m = (cursor n + k) mod length (point_cloud_cache n)"
      "published m = published n @
         map (\<lambda>j. point_cloud_cache n ! ((cursor n + j) mod length (point_cloud_cache n))) [0..<k]"
    by blast
  let ?m' = "m\<lparr>current_index := of_nat (cursor m + 1),
            timer := Some (wait_at (timestamp_cache m) (cursor m)),
            published := published m @ [point_cloud_cache m ! cursor m]\<rparr>"
  have t: "timer_callback m = Inr ?m'"
    using m(2) by (rule timer_callback_playing)
  have r: "run (Suc k) n = Inr ?m'"
    using m(1) t by (simp only: run_snoc sum.case)
  have u: "unat (current_index ?m') = cursor m + 1"
    using m(2) by (rule playing_fired(2))
  have "timer ?m' = Some (wait_at (timestamp_cache n) (cursor m))"
    and "published ?m' = published m @ [point_cloud_cache n ! cursor m]"
    using m(3,4) by simp_all
  with m t r u show ?thesis
    by blast
qed

lemma construct_ok:
  assumes "data_path_exists d" "timestamps_file_exists d" "binary_data_path_exists d"
    and "length (data_files d) = length (timestamps d)" and "1 < length (timestamps d)"
  shows "construct d =
     (concat (map (item_events (files d)) (data_files d)),
      Inr \<lparr>timestamp_cache = timestamps d,
           point_cloud_cache = frames_of (files d) (zip (timestamps d) (data_files d)),
           current_index = 0,
           timer = Some (timestamps d ! 1 - timestamps d ! 0),
           published = []\<rparr>)"
  using assms(5) build_cache_ok [OF assms(1-4)]
  by (simp add: construct_def updateTimerAndPublish_def)

section \<open>Playback from a constructed node\<close>

lemma load_dataset_of:
  "loadPointCloudDataFromBin (files (dataset_of ts fl)) f =
     (case map_of fl f of
        Some (Some c) \<Rightarrow> ([OpenFile f], decode c)
      | _ \<Rightarrow> ([OpenFile f, Cerr (''Could not read file: '' @ f)], []))"
  by (simp add: dataset_of_simps loadPointCloudDataFromBin_def split: option.split)

lemmas dataset_eval =
  dataset_of_simps(1-5) item_events_def frames_of_def points_of_def load_dataset_of
  decode_one_point decode_five_floats decode_Nil

lemma construct_two_frames:
  "construct (dataset_of [s, t] [(''0.bin'', Some one_point), (''1.bin'', Some five_floats)]) =
     ([OpenFile ''0.bin'', OpenFile ''1.bin''],
      Inr \<lparr>timestamp_cache = [s, t],
           point_cloud_cache =
             [point_cloud_message s (decode one_point), point_cloud_message t (decode five_floats)],
           current_index = 0, timer = Some (t - s), published = []\<rparr>)"
  by (subst construct_ok)
    (simp_all add: dataset_eval)

lemma construct_three_frames:
  "construct (dataset_of [s, t, u]
      [(''0.bin'', Some one_point), (''1.bin'', Some five_floats), (''2.bin'', Some one_point)]) =
     ([OpenFile ''0.bin'', OpenFile ''1.bin'', OpenFile ''2.bin''],
      Inr \<lparr>timestamp_cache = [s, t, u],
           point_cloud_cache =
             [point_cloud_message s (decode one_point), point_cloud_message t (decode five_floats),
              point_cloud_message u (decode one_point)],
           current_index = 0, timer = Some (t - s), published = []\<rparr>)"
  by (subst construct_ok)
    (simp_all add: dataset_eval)

lemma stamp_message: "stamp (point_cloud_message t ps) = t"
  by (simp add: point_cloud_message_def)

text \<open>
  C1. Let the constructor return a node whose cache has \<open>N \<ge> 2\<close> frames, \<open>N\<close> within the
  range of the 32-bit cursor. Then every number of firings succeeds, and the frames
  published by the first \<open>k\<close> firings are frames \<open>0, 1, \<dots>, N - 1, 0, 1, \<dots>\<close> of the cache, in
  this order. Before each of the first \<open>N\<close> firings the cursor is the number of firings so
  far and the wraparound leaves it alone; after exactly \<open>N\<close> firings the cursor stands at
  \<open>N\<close>, the next firing resets it to 0 before it publishes, and so firing \<open>N + 1\<close> publishes
  frame 0 again and leaves the cursor at 1.
\<close>

theorem emissions_follow_cursor_order:
  assumes "construct d = (log, Inr n0)"
    and "2 \<le> length (point_cloud_cache n0)"
    and "length (point_cloud_cache n0) < 2 ^ 32"
  shows "(\<forall>k. \<exists>n. run k n0 = Inr n \<and>
            published n =
              map (\<lambda>j. point_cloud_cache n0 ! (j mod length (point_cloud_cache n0))) [0..<k]) \<and>
         (\<forall>k < length (point_cloud_cache n0). \<exists>n. run k n0 = Inr n \<and>
            unat (current_index n) = k \<and> wraparound n = n) \<and>
         (\<exists>n n'. run (length (point_cloud_cache n0)) n0 = Inr n \<and>
            unat (current_index n) = length (point_cloud_cache n0) \<and>
            current_index (wraparound n) = 0 \<and>
            run (Suc (length (point_cloud_cache n0))) n0 = Inr n' \<and>
            published n' = published n @ [point_cloud_cache n0 ! 0] \<and>
            unat (current_index n') = 1)"
proof -
  let ?N = "length (point_cloud_cache n0)"
  have ne: "point_cloud_cache n0 \<noteq> []"
    using assms(2) by auto
  have pl: "playing n0" and c0: "cursor n0 = 0"
    using construct_playing [OF assms(1) ne assms(3)] by simp_all
  have p0: "published n0 = []" and i0: "current_index n0 = 0"
    using construct_Inr [OF assms(1)] by simp_all
  have idx: "\<exists>n. run k n0 = Inr n \<and> unat (current_index n) = k \<and> cursor n = k mod ?N"
    if "k \<le> ?N" for k
  proof (cases k)
    case 0
    then show ?thesis using i0 c0 by simp
  next
    case (Suc k')
    from run_Suc_playing [OF pl, of k']
    obtain m m' where "run (Suc k') n0 = Inr m'" "cursor m = (cursor n0 + k') mod ?N"
      "unat (current_index m') = cursor m + 1" "point_cloud_cache m = point_cloud_cache n0"
      "run k' n0 = Inr m"
      by blast
    moreover from run_playing [OF pl, of k]
    obtain n where "run k n0 = Inr n" "cursor n = (cursor n0 + k) mod ?N"
      by blast
    ultimately show ?thesis
      using that Suc c0 by simp
  qed
  have A: "\<forall>k. \<exists>n. run k n0 = Inr n \<and>
            published n = map (\<lambda>j. point_cloud_cache n0 ! (j mod ?N)) [0..<k]"
  proof
    fix k
    from run_playing [OF pl, of k] show "\<exists>n. run k n0 = Inr n \<and>
            published n = map (\<lambda>j. point_cloud_cache n0 ! (j mod ?N)) [0..<k]"
      using c0 p0 by auto
  qed
  have B: "\<forall>k < ?N. \<exists>n. run k n0 = Inr n \<and> unat (current_index n) = k \<and> wraparound n = n"
  proof (intro allI impI)
    fix k assume k: "k < ?N"
    with idx [of k] obtain n where n: "run k n0 = Inr n" "unat (current_index n) = k"
      by auto
    from run_playing [OF pl, of k] n(1) have "point_cloud_cache n = point_cloud_cache n0"
      by auto
    with n k have "wraparound n = n"
      by (simp add: wraparound_def)
    with n show "\<exists>n. run k n0 = Inr n \<and> unat (current_index n) = k \<and> wraparound n = n"
      by blast
  qed
  have C: "\<exists>n n'. run ?N n0 = Inr n \<and> unat (current_index n) = ?N \<and>
            current_index (wraparound n) = 0 \<and> run (Suc ?N) n0 = Inr n' \<and>
            published n' = published n @ [point_cloud_cache n0 ! 0] \<and>
            unat (current_index n') = 1"
  proof -
    from idx [of ?N] obtain n where n: "run ?N n0 = Inr n" "unat (current_index n) = ?N"
      by auto
    from run_Suc_playing [OF pl, of ?N] n(1)
    obtain n' where n': "run (Suc ?N) n0 = Inr n'" "point_cloud_cache n = point_cloud_cache n0"
      "cursor n = (cursor n0 + ?N) mod ?N" "unat (current_index n') = cursor n + 1"
      "published n' = published n @ [point_cloud_cache n0 ! cursor n]"
      by auto
    have cn: "cursor n = 0" using n'(3) c0 by simp
    have "current_index (wraparound n) = 0"
      using n(2) n'(2) by (simp add: wraparound_def)
    with n n' cn show ?thesis
      by auto
  qed
  from A B C show ?thesis by blast
qed

theorem emissions_follow_cursor_order_witness:
  "\<exists>log n0 n3.
     construct (dataset_of [1000, 1500] [(''0.bin'', Some one_point), (''1.bin'', Some five_floats)])
       = (log, Inr n0) \<and>
     length (point_cloud_cache n0) = 2 \<and>
     run 3 n0 = Inr n3 \<and>
     map stamp (published n3) = [1000, 1500, 1000]"
proof -
  let ?n0 = "\<lparr>timestamp_cache = [1000, 1500],
           point_cloud_cache =
             [point_cloud_message 1000 (decode one_point), point_cloud_message 1500 (decode five_floats)],
           current_index = 0, timer = Some (1500 - 1000), published = []\<rparr>"
  note c = construct_two_frames [of 1000 1500]
  have "\<forall>k. \<exists>n. run k ?n0 = Inr n \<and>
            published n =
              map (\<lambda>j. point_cloud_cache ?n0 ! (j mod length (point_cloud_cache ?n0))) [0..<k]"
    using emissions_follow_cursor_order [OF c] by simp
  then obtain n3 where "run 3 ?n0 = Inr n3"
    and "published n3 =
              map (\<lambda>j. point_cloud_cache ?n0 ! (j mod length (point_cloud_cache ?n0))) [0..<3]"
    by blast
  then have "run 3 ?n0 = Inr n3 \<and> map stamp (published n3) = [1000, 1500, 1000]"
    by (simp add: upt_conv_Cons stamp_message)
  with c show ?thesis
    by (intro exI [of _ "[OpenFile ''0.bin'', OpenFile ''1.bin'']"] exI [of _ ?n0] exI [of _ n3]) simp
qed

lemma stamps_without_skips:
  assumes "construct d = (log, Inr n0)"
    and "length (point_cloud_cache n0) = length (timestamps d)"
  shows "map stamp (point_cloud_cache n0) = timestamps d"
proof -
  let ?items = "zip (timestamps d) (data_files d)"
  from construct_Inr(5) [OF assms(1)]
  have len: "length (data_files d) = length (timestamps d)"
    and cache: "point_cloud_cache n0 = frames_of (files d) ?items"
    using build_cache_Inr by blast+
  have "length (filter (\<lambda>(t, f). points_of (files d) f = []) ?items) = 0"
    using length_frames_of [of "files d" ?items] assms(2) len by (simp add: cache)
  then have "\<forall>x \<in> set ?items. \<not> (case x of (t, f) \<Rightarrow> points_of (files d) f = [])"
    by (simp add: filter_empty_conv)
  then have "filter (\<lambda>(t, f). points_of (files d) f \<noteq> []) ?items = ?items"
    by (intro filter_True) auto
  then show ?thesis
    using len by (simp add: cache stamps_frames_of)
qed

text \<open>
  The wait of a firing, as the code computes it. In a node the constructor returned (cache
  not empty and within the range of the cursor), every firing succeeds, and a firing that
  publishes frame \<open>c\<close> of the cache with \<open>c + 1\<close> not the length of the cache arms the timer
  with the difference of the entries \<open>c + 1\<close> and \<open>c\<close> of \<^verbatim>\<open>timestamp_cache_\<close>. That vector
  holds the timestamps of all files, the skipped ones included: its entries are the
  timestamps of the frames \<open>c + 1\<close> and \<open>c\<close> only when no file was skipped (lemma
  \<open>stamps_without_skips\<close>). With the timestamps 1000, 1500, 5000 and three frames, the wait
  computed by firing \<open>k + 1\<close> is the entry \<open>k mod 3\<close> of 500, 3500, boundary wait, for every \<open>k\<close>.
\<close>

lemma wait_follows_timestamp_cache:
  assumes "construct d = (log, Inr n0)"
    and "point_cloud_cache n0 \<noteq> []"
    and "length (point_cloud_cache n0) < 2 ^ 32"
  shows "(\<forall>k. \<exists>n n'. run k n0 = Inr n \<and> timer_callback n = Inr n' \<and> run (Suc k) n0 = Inr n' \<and>
            cursor n = k mod length (point_cloud_cache n0) \<and>
            (cursor n + 1 \<noteq> length (point_cloud_cache n0) \<longrightarrow>
               timer n' = Some (timestamps d ! (cursor n + 1) - timestamps d ! cursor n))) \<and>
         (timestamps d = [1000, 1500, 5000] \<and> length (point_cloud_cache n0) = 3 \<longrightarrow>
            (\<forall>k. \<exists>n. run (Suc k) n0 = Inr n \<and>
               timer n = Some ([500, 3500, boundary_sleep] ! (k mod 3))))"
proof -
  let ?N = "length (point_cloud_cache n0)"
  have pl: "playing n0" and c0: "cursor n0 = 0"
    using construct_playing [OF assms] by simp_all
  have ts: "timestamp_cache n0 = timestamps d" and le: "?N \<le> length (timestamps d)"
    using construct_Inr(1,7) [OF assms(1)] by simp_all
  have step: "\<exists>n n'. run k n0 = Inr n \<and> timer_callback n = Inr n' \<and> run (Suc k) n0 = Inr n' \<and>
      cursor n = k mod ?N \<and> timer n' = Some (wait_at (timestamps d) (k mod ?N))" for k
    using run_Suc_playing [OF pl, of k] c0 ts by auto
  have lt: "k mod ?N < ?N" for k
    using assms(2) by simp
  have A: "\<forall>k. \<exists>n n'. run k n0 = Inr n \<and> timer_callback n = Inr n' \<and> run (Suc k) n0 = Inr n' \<and>
            cursor n = k mod ?N \<and>
            (cursor n + 1 \<noteq> ?N \<longrightarrow>
               timer n' = Some (timestamps d ! (cursor n + 1) - timestamps d ! cursor n))"
  proof
    fix k
    from step [of k] obtain n n' where n: "run k n0 = Inr n" "timer_callback n = Inr n'"
      "run (Suc k) n0 = Inr n'" "cursor n = k mod ?N"
      "timer n' = Some (wait_at (timestamps d) (k mod ?N))"
      by blast
    have "timer n' = Some (timestamps d ! (cursor n + 1) - timestamps d ! cursor n)"
      if "cursor n + 1 \<noteq> ?N"
    proof -
      from that lt [of k] n(4) have "k mod ?N + 1 < ?N" by arith
      with le have "k mod ?N + 1 \<noteq> length (timestamps d)" by arith
      then show ?thesis using n(4,5) by (simp add: wait_at_def)
    qed
    with n show "\<exists>n n'. run k n0 = Inr n \<and> timer_callback n = Inr n' \<and> run (Suc k) n0 = Inr n' \<and>
            cursor n = k mod ?N \<and>
            (cursor n + 1 \<noteq> ?N \<longrightarrow>
               timer n' = Some (timestamps d ! (cursor n + 1) - timestamps d ! cursor n))"
      by blast
  qed
  have B: "\<forall>k. \<exists>n. run (Suc k) n0 = Inr n \<and> timer n = Some ([500, 3500, boundary_sleep] ! (k mod 3))"
    if t: "timestamps d = [1000, 1500, 5000]" and n3: "?N = 3"
  proof
    fix k :: nat
    have "k mod 3 = 0 \<or> k mod 3 = 1 \<or> k mod 3 = 2" by arith
    then have "wait_at (timestamps d) (k mod 3) = [500, 3500, boundary_sleep] ! (k mod 3)"
      by (auto simp: wait_at_def t)
    with step [of k] n3
    show "\<exists>n. run (Suc k) n0 = Inr n \<and> timer n = Some ([500, 3500, boundary_sleep] ! (k mod 3))"
      by auto
  qed
  from A B show ?thesis by blast
qed

lemma three_frame_waits:
  "\<exists>log n0 n1 n2 n3 n4.
     construct (dataset_of [1000, 1500, 5000]
        [(''0.bin'', Some one_point), (''1.bin'', Some five_floats), (''2.bin'', Some one_point)])
       = (log, Inr n0) \<and>
     run 1 n0 = Inr n1 \<and> timer n1 = Some 500 \<and>
     run 2 n0 = Inr n2 \<and> timer n2 = Some 3500 \<and>
     run 3 n0 = Inr n3 \<and> timer n3 = Some 100000000 \<and>
     run 4 n0 = Inr n4 \<and> timer n4 = Some 500"
proof -
  let ?n0 = "\<lparr>timestamp_cache = [1000, 1500, 5000],
           point_cloud_cache =
             [point_cloud_message 1000 (decode one_point), point_cloud_message 1500 (decode five_floats),
              point_cloud_message 5000 (decode one_point)],
           current_index = 0, timer = Some (1500 - 1000), published = []\<rparr>"
  note c = construct_three_frames [of 1000 1500 5000]
  have w: "\<exists>n. run (Suc k) ?n0 = Inr n \<and> timer n = Some ([500, 3500, boundary_sleep] ! (k mod 3))"
    for k
    using wait_follows_timestamp_cache [OF c] by (simp add: dataset_of_simps(1-5))
  have s: "Suc 0 = 1" "Suc 1 = 2" "Suc 2 = 3" "Suc 3 = 4"
    by simp_all
  from w [of 0] obtain n1 where n1: "run 1 ?n0 = Inr n1" "timer n1 = Some 500"
    unfolding s by auto
  from w [of 1] obtain n2 where n2: "run 2 ?n0 = Inr n2" "timer n2 = Some 3500"
    unfolding s by auto
  from w [of 2] obtain n3 where n3: "run 3 ?n0 = Inr n3" "timer n3 = Some 100000000"
    unfolding s by (auto simp: boundary_sleep_def)
  from w [of 3] obtain n4 where n4: "run 4 ?n0 = Inr n4" "timer n4 = Some 500"
    unfolding s by auto
  from c n1 n2 n3 n4 show ?thesis
    by blast
qed

lemma sint_diff_no_overflow:
  fixes a b :: int64
  assumes "sint a \<le> sint b" and "- (2 ^ 63) \<le> sint a - sint b"
  shows "sint (a - b) = sint a - sint b"
proof -
  have "signed_take_bit 63 (sint a - sint b) = sint a - sint b"
    using assms by (intro signed_take_bit_int_eq_self) simp_all
  then show ?thesis
    by (simp add: sint_word_diff)
qed

text \<open>
  C8. The wait is never clamped. In a node the constructor returned, after any number of
  firings, let the next firing take the branch of the timestamp difference while
  \<open>timestamp[c + 1] \<le> timestamp[c]\<close> (as signed 64-bit values). The firing arms the timer
  with exactly the word \<open>timestamp[c + 1] - timestamp[c]\<close>; when the difference of the two
  values fits 64 bits, this word read as a signed value is that difference, zero or
  negative. The timestamps 1000 and 900 give \<open>- 100\<close>.
\<close>

theorem wait_is_not_clamped:
  assumes "construct d = (log, Inr n0)"
    and "point_cloud_cache n0 \<noteq> []"
    and "length (point_cloud_cache n0) < 2 ^ 32"
    and "run k n0 = Inr n"
    and "cursor n + 1 \<noteq> length (timestamp_cache n)"
    and "sint (timestamp_cache n ! (cursor n + 1)) \<le> sint (timestamp_cache n ! cursor n)"
  shows "\<exists>n'. timer_callback n = Inr n' \<and>
           timer n' = Some (timestamp_cache n ! (cursor n + 1) - timestamp_cache n ! cursor n) \<and>
           (- (2 ^ 63) \<le> sint (timestamp_cache n ! (cursor n + 1)) - sint (timestamp_cache n ! cursor n)
            \<longrightarrow> sint (timestamp_cache n ! (cursor n + 1) - timestamp_cache n ! cursor n)
                  = sint (timestamp_cache n ! (cursor n + 1)) - sint (timestamp_cache n ! cursor n) \<and>
                sint (timestamp_cache n ! (cursor n + 1) - timestamp_cache n ! cursor n) \<le> 0)"
proof -
  have pl: "playing n0"
    using construct_playing [OF assms(1-3)] by simp
  from run_Suc_playing [OF pl, of k] assms(4)
  obtain n' where n': "timer_callback n = Inr n'" "timestamp_cache n = timestamp_cache n0"
      "timer n' = Some (wait_at (timestamp_cache n0) (cursor n))"
    by auto
  have "timer n' = Some (timestamp_cache n ! (cursor n + 1) - timestamp_cache n ! cursor n)"
    using n'(2,3) assms(5) by (simp add: wait_at_def)
  moreover have "sint (timestamp_cache n ! (cursor n + 1) - timestamp_cache n ! cursor n)
                  = sint (timestamp_cache n ! (cursor n + 1)) - sint (timestamp_cache n ! cursor n) \<and>
                sint (timestamp_cache n ! (cursor n + 1) - timestamp_cache n ! cursor n) \<le> 0"
    if "- (2 ^ 63) \<le> sint (timestamp_cache n ! (cursor n + 1)) - sint (timestamp_cache n ! cursor n)"
    using sint_diff_no_overflow [OF assms(6) that] assms(6) by simp
  ultimately show ?thesis
    using n'(1) by blast
qed

theorem wait_is_not_clamped_witness:
  "\<exists>log n0 n' w.
     construct (dataset_of [1000, 900] [(''0.bin'', Some one_point), (''1.bin'', Some five_floats)])
       = (log, Inr n0) \<and>
     run 0 n0 = Inr n0 \<and> cursor n0 = 0 \<and>
     sint (timestamp_cache n0 ! 1) \<le> sint (timestamp_cache n0 ! 0) \<and>
     timer_callback n0 = Inr n' \<and> timer n' = Some w \<and> sint w = - 100"
proof -
  let ?n0 = "\<lparr>timestamp_cache = [1000, 900],
           point_cloud_cache =
             [point_cloud_message 1000 (decode one_point), point_cloud_message 900 (decode five_floats)],
           current_index = 0, timer = Some (900 - 1000), published = []\<rparr>"
  note c = construct_two_frames [of 1000 900]
  have c0: "cursor ?n0 = 0"
    by (simp add: cursor_eq)
  have le: "sint (timestamp_cache ?n0 ! (cursor ?n0 + 1)) \<le> sint (timestamp_cache ?n0 ! cursor ?n0)"
    by (simp add: cursor_eq)
  have "\<exists>n'. timer_callback ?n0 = Inr n' \<and>
           timer n' = Some (timestamp_cache ?n0 ! (cursor ?n0 + 1) - timestamp_cache ?n0 ! cursor ?n0) \<and>
           (- (2 ^ 63) \<le> sint (timestamp_cache ?n0 ! (cursor ?n0 + 1)) - sint (timestamp_cache ?n0 ! cursor ?n0)
            \<longrightarrow> sint (timestamp_cache ?n0 ! (cursor ?n0 + 1) - timestamp_cache ?n0 ! cursor ?n0)
                  = sint (timestamp_cache ?n0 ! (cursor ?n0 + 1)) - sint (timestamp_cache ?n0 ! cursor ?n0) \<and>
                sint (timestamp_cache ?n0 ! (cursor ?n0 + 1) - timestamp_cache ?n0 ! cursor ?n0) \<le> 0)"
    by (rule wait_is_not_clamped [OF c _ _ _ _ le, of 0]) (simp_all add: cursor_eq)
  then obtain n' where "timer_callback ?n0 = Inr n'" "timer n' = Some (900 - 1000)"
    "sint (900 - 1000 :: int64) = - 100"
    by (auto simp: cursor_eq)
  with c c0 show ?thesis
    by (intro exI [of _ "[OpenFile ''0.bin'', OpenFile ''1.bin'']"] exI [of _ ?n0] exI [of _ n']
        exI [of _ "900 - 1000"]) simp
qed

section \<open>Empty and shortened caches\<close>

lemma frames_of_all_empty:
  "\<forall>f \<in> set fnames. points_of fs f = [] \<Longrightarrow> length fnames = length ts \<Longrightarrow>
   frames_of fs (zip ts fnames) = []"
  by (auto simp: frames_of_def filter_empty_conv dest: set_zip_rightD)

lemma timer_callback_empty_cache:
  "point_cloud_cache n = [] \<Longrightarrow> timer_callback n = Inl OutOfRange"
  by (simp add: timer_callback_def wraparound_def Let_def)

lemma construct_skipped_middle:
  "construct (dataset_of [1000, 1500, 5000]
      [(''0.bin'', Some one_point), (''1.bin'', Some []), (''2.bin'', Some five_floats)]) =
     ([OpenFile ''0.bin'', OpenFile ''1.bin'', Cout ''Empty binary file, skipping.'',
       OpenFile ''2.bin''],
      Inr \<lparr>timestamp_cache = [1000, 1500, 5000],
           point_cloud_cache =
             [point_cloud_message 1000 (decode one_point), point_cloud_message 5000 (decode five_floats)],
           current_index = 0, timer = Some 500, published = []\<rparr>)"
  by (subst construct_ok) (simp_all add: dataset_eval)

lemmas callback_eval =
  timer_callback_def wraparound_def sleep_duration_nanosec_def updateTimerAndPublish_def
  boundary_sleep_def Let_def

lemma construct_skipped_first:
  "construct (dataset_of [1000, 1500] [(''0.bin'', Some []), (''1.bin'', Some one_point)]) =
     ([OpenFile ''0.bin'', Cout ''Empty binary file, skipping.'', OpenFile ''1.bin''],
      Inr \<lparr>timestamp_cache = [1000, 1500],
           point_cloud_cache = [point_cloud_message 1500 (decode one_point)],
           current_index = 0, timer = Some 500, published = []\<rparr>)"
  by (subst construct_ok) (simp_all add: dataset_eval)

text \<open>
  C3. The claim: starting playback on a frame sequence of length 0 fails at once with an
  empty-sequence error and arms no timer. The constructor has no such check and no such
  error. With two timestamps, one file that cannot be opened and one empty file, every
  source is skipped, the cache is empty, and the constructor returns normally with the
  timer armed for 500 ns.
\<close>

theorem empty_sequence_is_not_rejected:
  "construct (dataset_of [1000, 1500] [(''0.bin'', None), (''1.bin'', Some [])]) =
     ([OpenFile ''0.bin'', Cerr ''Could not read file: 0.bin'', Cout ''Empty binary file, skipping.'',
       OpenFile ''1.bin'', Cout ''Empty binary file, skipping.''],
      Inr \<lparr>timestamp_cache = [1000, 1500], point_cloud_cache = [], current_index = 0,
           timer = Some 500, published = []\<rparr>)"
  by (subst construct_ok) (simp_all add: dataset_eval)

text \<open>
  C3 as the code has it: when the three paths exist, the two sizes agree, at least two
  timestamps were read and every file is without points, the constructor returns a node
  with an empty cache, the cursor at 0, nothing published, and the first timer armed with
  \<open>timestamp[1] - timestamp[0]\<close>.
\<close>

theorem empty_sequence_still_arms_timer:
  assumes "data_path_exists d" and "timestamps_file_exists d" and "binary_data_path_exists d"
    and "length (data_files d) = length (timestamps d)"
    and "1 < length (timestamps d)"
    and "\<forall>f \<in> set (data_files d). points_of (files d) f = []"
  shows "snd (construct d) =
     Inr \<lparr>timestamp_cache = timestamps d, point_cloud_cache = [], current_index = 0,
          timer = Some (timestamps d ! 1 - timestamps d ! 0), published = []\<rparr>"
  using construct_ok [OF assms(1-5)] frames_of_all_empty [OF assms(6,4)]
  by simp

theorem empty_sequence_still_arms_timer_witness:
  "length (data_files (dataset_of [1000, 1500, 5000]
      [(''0.bin'', None), (''1.bin'', Some []), (''2.bin'', Some [1, 2, 3])])) = 3 \<and>
   list_all (\<lambda>f. points_of (files (dataset_of [1000, 1500, 5000]
      [(''0.bin'', None), (''1.bin'', Some []), (''2.bin'', Some [1, 2, 3])])) f = [])
     [''0.bin'', ''1.bin'', ''2.bin''] \<and>
   snd (construct (dataset_of [1000, 1500, 5000]
      [(''0.bin'', None), (''1.bin'', Some []), (''2.bin'', Some [1, 2, 3])])) =
     Inr \<lparr>timestamp_cache = [1000, 1500, 5000], point_cloud_cache = [], current_index = 0,
          timer = Some 500, published = []\<rparr>"
proof -
  let ?d = "dataset_of [1000, 1500, 5000]
      [(''0.bin'', None), (''1.bin'', Some []), (''2.bin'', Some [1, 2, 3])]"
  have d3: "decode [1, 2, 3] = []"
    by (simp add: decode_def copy_points_closed number_of_floats_def gcount_def sizeof_float_def
        buffer_size_def)
  have e: "points_of (files ?d) ''0.bin'' = []" "points_of (files ?d) ''1.bin'' = []"
    "points_of (files ?d) ''2.bin'' = []"
    by (simp_all add: points_of_def load_dataset_of decode_Nil d3)
  then have a: "\<forall>f \<in> set (data_files ?d). points_of (files ?d) f = []"
    by (simp add: dataset_of_simps(1-5))
  have "snd (construct ?d) =
     Inr \<lparr>timestamp_cache = timestamps ?d, point_cloud_cache = [], current_index = 0,
          timer = Some (timestamps ?d ! 1 - timestamps ?d ! 0), published = []\<rparr>"
    by (rule empty_sequence_still_arms_timer [OF _ _ _ _ _ a]) (simp_all add: dataset_of_simps(1-5))
  then show ?thesis
    using e by (simp add: dataset_of_simps(1-5))
qed

text \<open>
  C5. The claim: also when skipped sources made the cache shorter than the list of
  timestamps, the firing that publishes the last frame of the cache computes the fixed
  boundary wait of 100 ms. The code with the timestamps 1000, 1500, 5000 and an empty second
  file: the cache has two frames and all three timestamps are kept. The second firing
  publishes the last frame (cursor 1); the callback compares \<open>current_index_ + 1 = 2\<close> with
  the number of timestamps, 3, not with the size of the cache, so it arms the timer with
  \<open>timestamp[2] - timestamp[1] = 3500\<close> and not with the boundary wait.
\<close>

theorem last_frame_wait_with_skipped_source:
  "\<exists>log n0 n1 n2.
     construct (dataset_of [1000, 1500, 5000]
        [(''0.bin'', Some one_point), (''1.bin'', Some []), (''2.bin'', Some five_floats)])
       = (log, Inr n0) \<and>
     length (timestamp_cache n0) = 3 \<and> length (point_cloud_cache n0) = 2 \<and>
     run 1 n0 = Inr n1 \<and> cursor n1 = 1 \<and>
     timer_callback n1 = Inr n2 \<and>
     map stamp (published n2) = [1000, 5000] \<and>
     timer n2 = Some 3500 \<and> timer n2 \<noteq> Some boundary_sleep"
  unfolding construct_skipped_middle
  by (simp add: callback_eval cursor_def stamp_message)

text \<open>
  C9. The claim: for a frame sequence of length 1 every wait, the first armed interval
  included, is the boundary wait. The code with one timestamp and one file with a point:
  the constructor computes the first interval as \<^verbatim>\<open>timestamp_cache_[1] - timestamp_cache_[0]\<close>
  on a vector of size 1, an index out of range. And with two timestamps whose first file is
  empty the cache has one frame, the first interval is 500 ns, and every firing compares
  \<open>current_index_ + 1 = 1\<close> with the two timestamps and arms 500 ns again, never the
  boundary wait.
\<close>

theorem single_frame_first_interval:
  "construct (dataset_of [1000] [(''0.bin'', Some one_point)]) = ([OpenFile ''0.bin''], Inl OutOfRange) \<and>
   (\<exists>log n0 n1 n2.
      construct (dataset_of [1000, 1500] [(''0.bin'', Some []), (''1.bin'', Some one_point)])
        = (log, Inr n0) \<and>
      length (point_cloud_cache n0) = 1 \<and> timer n0 = Some 500 \<and>
      run 1 n0 = Inr n1 \<and> timer n1 = Some 500 \<and>
      run 2 n0 = Inr n2 \<and> timer n2 = Some 500 \<and>
      Some 500 \<noteq> Some boundary_sleep)"
proof -
  have "build_cache (dataset_of [1000] [(''0.bin'', Some one_point)]) =
      ([OpenFile ''0.bin''], Inr [point_cloud_message 1000 (decode one_point)])"
    by (subst build_cache_ok) (simp_all add: dataset_eval)
  then have a: "construct (dataset_of [1000] [(''0.bin'', Some one_point)])
      = ([OpenFile ''0.bin''], Inl OutOfRange)"
    by (simp add: construct_def dataset_of_simps(1-5))
  have s: "run 1 n = run (Suc 0) n" "run 2 n = run (Suc (Suc 0)) n" for n
    by (simp_all add: numeral_2_eq_2)
  have "\<exists>log n0 n1 n2.
      construct (dataset_of [1000, 1500] [(''0.bin'', Some []), (''1.bin'', Some one_point)])
        = (log, Inr n0) \<and>
      length (point_cloud_cache n0) = 1 \<and> timer n0 = Some 500 \<and>
      run 1 n0 = Inr n1 \<and> timer n1 = Some 500 \<and>
      run 2 n0 = Inr n2 \<and> timer n2 = Some 500 \<and>
      Some 500 \<noteq> Some boundary_sleep"
    unfolding construct_skipped_first s
    by (simp add: callback_eval)
  with a show ?thesis by blast
qed

lemma construct_skipped_first_of_three:
  "construct (dataset_of [1000, 1500, 5000]
      [(''0.bin'', Some []), (''1.bin'', Some one_point), (''2.bin'', Some five_floats)]) =
     ([OpenFile ''0.bin'', Cout ''Empty binary file, skipping.'', OpenFile ''1.bin'',
       OpenFile ''2.bin''],
      Inr \<lparr>timestamp_cache = [1000, 1500, 5000],
           point_cloud_cache =
             [point_cloud_message 1500 (decode one_point), point_cloud_message 5000 (decode five_floats)],
           current_index = 0, timer = Some 500, published = []\<rparr>)"
  by (subst construct_ok) (simp_all add: dataset_eval)

text \<open>
  C2. The claim: at every firing whose cursor \<open>c\<close> has \<open>c + 1\<close> different from the length of
  the frame sequence, the wait is \<open>timestamp[c + 1] - timestamp[c]\<close>, the difference of the
  capture timestamps of the frames \<open>c + 1\<close> and \<open>c\<close>. The code with the timestamps 1000, 1500,
  5000 and an empty first file: the cache holds two frames, captured at 1500 and at 5000,
  and \<^verbatim>\<open>timestamp_cache_\<close> still holds all three timestamps. The first firing publishes
  frame 0 (captured at 1500) with \<open>c + 1 = 1\<close>, which is not the length 2 of the cache; the
  frames are 3500 ns apart, but the callback subtracts entries 0 and 1 of
  \<^verbatim>\<open>timestamp_cache_\<close> and arms the timer with \<open>1500 - 1000 = 500\<close>.
\<close>

theorem wait_with_skipped_first_source:
  "\<exists>log n0 n1.
     construct (dataset_of [1000, 1500, 5000]
        [(''0.bin'', Some []), (''1.bin'', Some one_point), (''2.bin'', Some five_floats)])
       = (log, Inr n0) \<and>
     timestamp_cache n0 = [1000, 1500, 5000] \<and>
     map stamp (point_cloud_cache n0) = [1500, 5000] \<and>
     cursor n0 = 0 \<and> cursor n0 + 1 \<noteq> length (point_cloud_cache n0) \<and>
     timer_callback n0 = Inr n1 \<and>
     map stamp (published n1) = [1500] \<and>
     stamp (point_cloud_cache n0 ! (cursor n0 + 1)) - stamp (point_cloud_cache n0 ! cursor n0) = 3500 \<and>
     timer n1 = Some 500 \<and> timer n1 \<noteq> Some 3500"
  unfolding construct_skipped_first_of_three
  by (simp add: callback_eval cursor_def stamp_message)

end
